(* ===== verification/Prelude.thy ===== *)
theory Prelude
  imports Main "HOL-Library.Word" "HOL-Library.AList"
begin

text \<open>
  Shared vocabulary of the development: the types that name the program's data
  (Python \<open>bytes\<close> as lists of 8-bit words, Python \<open>str\<close> as HOL strings), the
  theorem collections the component theories fill, and generic lemmas on lists,
  association lists and options that several components use.
\<close>

section \<open>Types of the model\<close>

type_synonym byte = "8 word"
type_synonym bytes = "byte list"

text \<open>A PyDAOS dictionary: keys are Python strings, values are byte strings.\<close>
type_synonym kv = "(string \<times> bytes) list"

text \<open>
  The exceptions the program raises, by their cause: unpacking the \<open>None\<close> that
  a lookup returned (\<open>TypeError\<close>), opening a pool/container pair that does not
  exist (\<open>DCont\<close>), removing an absent key from a DAOS dictionary, writing a
  file into a directory that does not exist, reading past the end of stdin, and
  \<open>int()\<close> of a line that is not an integer.
\<close>

datatype py_error =
    UnpackNone
  | NoSuchContainer string string
  | PopNotFound string
  | NoSuchDirectory string
  | EOFErr
  | ValueErr

text \<open>
  The lines the program prints, one constructor per \<open>print\<close> of
  src/auto_chunk.py (timings, which come from \<open>time.time()\<close>, are left out).
\<close>

datatype msg =
    CommandsBanner
  | HelpText
  | MetaFileMissing
  | KeyLine string
  | MetaDeleted string
  | MetaKeyAbsent string
  | ContainerAccessError string py_error
  | ValueSaved string
  | ReadSuccess nat
  | KeyNotFoundMsg
  | ReadError py_error
  | KeyDeletedMsg
  | KeyNotDeletedMsg
  | DeleteError py_error
  | KeyAndChunksDeleted string
  | NoKeyFound
  | UploadSuccess nat
  | UploadError py_error
  | FileNotFoundMsg
  | InvalidCommand
  | ProgramEnded

section \<open>Theorem collections\<close>

named_theorems codec_simps "evaluation rules of the chunk codec"
named_theorems kv_simps "rules describing the key-value adapter through map_of"
named_theorems meta_simps "rules of the metadata store"

section \<open>Generic list lemmas\<close>

text \<open>
  Two decompositions \<open>xs @ ys = xs' @ ys'\<close> agree when the tails are drawn from a
  set \<open>A\<close> and both heads end outside \<open>A\<close>: the boundary is the last position
  outside \<open>A\<close>.
\<close>

lemma append_eq_boundary:
  assumes eq: "xs @ ys = xs' @ ys'"
    and ne: "xs \<noteq> []" "xs' \<noteq> []"
    and tails: "set ys \<subseteq> A" "set ys' \<subseteq> A"
    and heads: "last xs \<notin> A" "last xs' \<notin> A"
  shows "xs = xs' \<and> ys = ys'"
proof -
  from eq obtain us where
    cases: "(xs = xs' @ us \<and> us @ ys = ys') \<or> (xs @ us = xs' \<and> ys = us @ ys')"
    by (auto simp: append_eq_append_conv2)
  have "us = []"
  proof (rule ccontr)
    assume us: "us \<noteq> []"
    from cases show False
    proof
      assume "xs = xs' @ us \<and> us @ ys = ys'"
      then have "last xs = last us" and "last us \<in> set ys'"
        using us by auto
      with tails heads show False by auto
    next
      assume "xs @ us = xs' \<and> ys = us @ ys'"
      then have "last xs' = last us" and "last us \<in> set ys"
        using us by auto
      with tails heads show False by auto
    qed
  qed
  with cases show ?thesis by auto
qed

lemma foldl_append_acc:
  "foldl (\<lambda>acc x. acc @ f x) (a @ b) xs = a @ foldl (\<lambda>acc x. acc @ f x) b xs"
  by (induction xs arbitrary: b) auto

section \<open>Association lists\<close>

lemma map_of_fold_update [kv_simps]:
  "map_of (fold (\<lambda>(k, v). AList.update k v) ps al) = map_of al ++ map_of (rev ps)"
  by (induction ps arbitrary: al) (auto simp: update_conv' map_add_def fun_eq_iff split: option.splits)

lemma distinct_fold_update:
  "distinct (map fst al) \<Longrightarrow> distinct (map fst (fold (\<lambda>(k, v). AList.update k v) ps al))"
  by (induction ps arbitrary: al) (auto simp: distinct_update)

lemma card_dom_map_of_le_length: "card (dom (map_of al)) \<le> length al"
proof -
  have "card (dom (map_of al)) = card (set (map fst al))"
    by (simp add: dom_map_of_conv_image_fst)
  also have "\<dots> \<le> length (map fst al)" by (rule card_length)
  finally show ?thesis by simp
qed

lemma map_of_rev_distinct: "distinct (map fst xs) \<Longrightarrow> map_of (rev xs) = map_of xs"
proof -
  assume d: "distinct (map fst xs)"
  then have "distinct (map fst (rev xs))" by (simp add: rev_map [symmetric])
  with d show ?thesis by (subst map_of_inject_set) simp_all
qed

end
