(* ===== verification/ChunkKey.thy ===== *)
theory ChunkKey
  imports Prelude
begin

text \<open>
  Chunk keys. The upload loop of \<open>upload_file\<close> (src/auto_chunk.py, line 217) and
  the key sets of \<open>read_key\<close> and \<open>delete_key1\<close> (lines 97, 131) name chunk
  \<open>i\<close> of a user key \<open>key\<close> by the f-string \<open>f"{key}chunk{i}"\<close>, where \<open>{i}\<close> is
  Python's \<open>str\<close> of a non-negative int: its decimal digits, without leading zeros.
  This theory models that rendering (\<open>str_nat\<close>) and the key (\<open>chunk_key\<close>),
  proves that the digits read back to the number, and that distinct (key, index)
  pairs never share a chunk key, so the chunks of different uploads cannot collide.
\<close>

section \<open>Decimal rendering of indices\<close>

definition digit_char :: "nat \<Rightarrow> char" where
  "digit_char d = char_of (48 + d)"

fun str_nat :: "nat \<Rightarrow> string" where
  "str_nat n =
     (if n < 10 then [digit_char n] else str_nat (n div 10) @ [digit_char (n mod 10)])"

declare str_nat.simps [simp del]

definition is_digit :: "char \<Rightarrow> bool" where
  "is_digit c \<longleftrightarrow> (48::nat) \<le> of_char c \<and> of_char c \<le> (57::nat)"

text \<open>Reading decimal digits back, as Python's \<open>int\<close> does on a digit string.\<close>

definition read_nat :: "string \<Rightarrow> nat" where
  "read_nat s = foldl (\<lambda>acc c. 10 * acc + (of_char c - 48)) 0 s"

section \<open>Chunk keys\<close>

definition chunk_key :: "string \<Rightarrow> nat \<Rightarrow> string" where
  "chunk_key key i = key @ ''chunk'' @ str_nat i"

section \<open>Lemmas\<close>

lemma of_char_digit_char [simp]: "d < 10 \<Longrightarrow> of_char (digit_char d) = 48 + d"
  by (simp add: digit_char_def)

lemma is_digit_digit_char [simp]: "d < 10 \<Longrightarrow> is_digit (digit_char d)"
  by (simp add: is_digit_def)

lemma str_nat_digits: "set (str_nat n) \<subseteq> {c. is_digit c}"
  by (induction n rule: str_nat.induct) (subst str_nat.simps, auto)

lemma str_nat_nonempty [simp]: "str_nat n \<noteq> []"
  by (subst str_nat.simps) simp

lemma read_nat_snoc: "read_nat (s @ [c]) = 10 * read_nat s + (of_char c - 48)"
  by (simp add: read_nat_def)

text \<open>The rendering round-trips through \<open>read_nat\<close>.\<close>

lemma read_str_nat: "read_nat (str_nat n) = n"
proof (induction n rule: str_nat.induct)
  case (1 n)
  show ?case
  proof (cases "n < 10")
    case True
    then show ?thesis by (simp add: str_nat.simps [of n] read_nat_def)
  next
    case False
    then have "read_nat (str_nat n) = 10 * read_nat (str_nat (n div 10)) + n mod 10"
      by (simp add: str_nat.simps [of n] read_nat_snoc)
    with "1.IH" False show ?thesis by simp
  qed
qed

lemma str_nat_inj: "str_nat i = str_nat j \<Longrightarrow> i = j"
  by (metis read_str_nat)

lemma last_chunk_marker: "last (key @ ''chunk'') = CHR ''k''"
  by simp

lemma not_digit_k: "\<not> is_digit (CHR ''k'')"
  by (simp add: is_digit_def)

lemma chunk_key_index_eq [simp]: "chunk_key key i = chunk_key key j \<longleftrightarrow> i = j"
  by (auto simp: chunk_key_def dest: str_nat_inj)

lemma card_chunk_key_range: "card (chunk_key key ` {..<n}) = n"
  by (simp add: card_image inj_on_def)

section \<open>Properties\<close>

text \<open>
  C4. Chunk keys are injective: two chunk keys are equal only when they name the
  same user key and the same chunk index. Hence the chunk entries of different
  user keys never overwrite each other, however the user keys are chosen.
\<close>

theorem chunk_key_inj: "chunk_key k i = chunk_key k' j \<longleftrightarrow> k = k' \<and> i = j"
proof
  assume eq: "chunk_key k i = chunk_key k' j"
  have "(k @ ''chunk'') @ str_nat i = (k' @ ''chunk'') @ str_nat j"
    using eq by (simp add: chunk_key_def)
  then have "k @ ''chunk'' = k' @ ''chunk'' \<and> str_nat i = str_nat j"
    by (rule append_eq_boundary [where A = "{c. is_digit c}"])
       (simp_all add: str_nat_digits not_digit_k)
  then show "k = k' \<and> i = j" by (auto dest: str_nat_inj)
qed simp

end
