(* ===== verification/ChunkCodec.thy ===== *)
theory ChunkCodec
  imports ChunkKey
begin

text \<open>
  The chunk codec of src/auto_chunk.py. Splitting is the \<open>while True\<close> loop of
  \<open>upload_file\<close> (lines 211--219), which calls \<open>f.read(CHUNK_SIZE)\<close> on the open
  file until it returns \<open>b""\<close>, storing each piece under the next chunk key.
  Joining is the loop of \<open>read_key\<close> (lines 101--104), which appends every
  fetched chunk that is not \<open>None\<close>, in the order of the requested keys.
  \<open>CHUNK_SIZE\<close> is \<open>n * 1024 * 1024\<close> for an unvalidated int \<open>n\<close> read at
  start-up (lines 19--20), so the model keeps it an \<open>int\<close>: Python's
  \<open>f.read(size)\<close> reads everything for a negative size and nothing for size 0.
\<close>

section \<open>Definitions\<close>

definition chunk_size_of :: "int \<Rightarrow> int" where
  "chunk_size_of n = n * 1024 * 1024"

text \<open>\<open>f.read(size)\<close> on the unread rest of a binary file: the bytes read and the rest.\<close>

definition py_read :: "int \<Rightarrow> bytes \<Rightarrow> bytes \<times> bytes" where
  "py_read sz rest =
     (if sz < 0 then (rest, []) else (take (nat sz) rest, drop (nat sz) rest))"

lemma py_read_shrinks:
  "fst (py_read sz rest) \<noteq> [] \<Longrightarrow> length (snd (py_read sz rest)) < length rest"
  by (auto simp: py_read_def split: if_splits)

text \<open>The pieces the loop reads, in order (the codec's \<open>split\<close>).\<close>

function split_chunks :: "int \<Rightarrow> bytes \<Rightarrow> bytes list" where
  "split_chunks sz rest =
     (if fst (py_read sz rest) = [] then []
      else fst (py_read sz rest) # split_chunks sz (snd (py_read sz rest)))"
  by pat_completeness auto
termination
  by (relation "measure (\<lambda>(sz, rest). length rest)") (auto dest: py_read_shrinks)

declare split_chunks.simps [simp del]

text \<open>
  The loop itself, with its state: the unread rest of the file, \<open>chunk_count\<close> and
  \<open>chunk_dict\<close> (a Python dict, kept as an association list in insertion order;
  \<open>chunk_dict[k] = data\<close> is \<open>AList.update\<close>).
\<close>

function read_loop :: "string \<Rightarrow> int \<Rightarrow> bytes \<Rightarrow> nat \<Rightarrow> kv \<Rightarrow> kv \<times> nat" where
  "read_loop key sz rest chunk_count chunk_dict =
     (let data = fst (py_read sz rest) in
      if data = [] then (chunk_dict, chunk_count)
      else read_loop key sz (snd (py_read sz rest)) (Suc chunk_count)
             (AList.update (chunk_key key chunk_count) data chunk_dict))"
  by pat_completeness auto
termination
  by (relation "measure (\<lambda>(key, sz, rest, c, d). length rest)") (auto dest: py_read_shrinks)

declare read_loop.simps [simp del]

text \<open>The entries the loop stores: chunk \<open>i\<close> under \<open>chunk_key key (c + i)\<close>.\<close>

definition chunk_entries :: "string \<Rightarrow> nat \<Rightarrow> bytes list \<Rightarrow> kv" where
  "chunk_entries key c chunks = zip (map (chunk_key key) [c..<c + length chunks]) chunks"

text \<open>
  The reassembly loop of \<open>read_key\<close> over the items returned by \<open>bget\<close>:
  \<open>assembled_data += chunk; chunk_count += 1\<close> for every chunk that is not \<open>None\<close>.
\<close>

fun join_chunks :: "(string \<times> bytes option) list \<Rightarrow> bytes \<Rightarrow> nat \<Rightarrow> bytes \<times> nat" where
  "join_chunks [] assembled chunk_count = (assembled, chunk_count)"
| "join_chunks ((ck, chunk) # items) assembled chunk_count =
     (case chunk of
        None \<Rightarrow> join_chunks items assembled chunk_count
      | Some c \<Rightarrow> join_chunks items (assembled @ c) (Suc chunk_count))"

text \<open>
  A closed-form reference for splitting with a positive sz \<open>n\<close>: piece \<open>i\<close> is
  the slice \<open>[i*n : i*n + n]\<close>, and there are \<open>ceil (length / n)\<close> pieces.
\<close>

definition split_spec :: "nat \<Rightarrow> bytes \<Rightarrow> bytes list" where
  "split_spec n d = map (\<lambda>i. take n (drop (i * n) d)) [0..<(length d + n - 1) div n]"

section \<open>Lemmas\<close>

lemma ceil_div_step: "0 < n \<Longrightarrow> 0 < l \<Longrightarrow> (l + n - 1) div n = Suc ((l - n + n - 1) div n)"
proof -
  assume n: "0 < n" and l: "0 < l"
  have "(l + n - 1) div n = (l - 1 + n) div n" using l by (simp add: algebra_simps)
  also have "\<dots> = Suc ((l - 1) div n)" using n by (simp add: div_add_self2)
  also have "(l - 1) div n = (l - n + n - 1) div n"
  proof (cases "n \<le> l")
    case True then show ?thesis by simp
  next
    case False
    then have "(l - 1) div n = 0" and "(l - n + n - 1) div n = 0" by simp_all
    then show ?thesis by simp
  qed
  finally show ?thesis .
qed

lemma split_spec_Cons:
  assumes "0 < n" "d \<noteq> []"
  shows "split_spec n d = take n d # split_spec n (drop n d)"
proof -
  have "(length d + n - 1) div n = Suc ((length (drop n d) + n - 1) div n)"
    using assms ceil_div_step [of n "length d"] by simp
  then show ?thesis
    by (simp add: split_spec_def upt_conv_Cons map_Suc_upt [symmetric] del: upt_Suc)
       (simp add: drop_drop add.commute)
qed


lemma py_read_Nil [simp]: "py_read sz [] = ([], [])"
  by (simp add: py_read_def)

lemma split_chunks_Nil [codec_simps]: "split_chunks sz [] = []"
  by (simp add: split_chunks.simps)

lemma split_chunks_zero [codec_simps]: "split_chunks 0 d = []"
  by (simp add: split_chunks.simps py_read_def)

lemma split_chunks_neg [codec_simps]:
  "sz < 0 \<Longrightarrow> split_chunks sz d = (if d = [] then [] else [d])"
  by (simp add: split_chunks.simps [of sz d] split_chunks.simps [of sz "[]"] py_read_def)

lemma split_chunks_pos [codec_simps]:
  "0 < sz \<Longrightarrow> d \<noteq> [] \<Longrightarrow>
   split_chunks sz d = take (nat sz) d # split_chunks sz (drop (nat sz) d)"
  by (simp add: split_chunks.simps [of sz d] py_read_def)

lemma split_spec_Nil: "0 < n \<Longrightarrow> split_spec n [] = []"
  by (simp add: split_spec_def)

lemma split_chunks_eq_spec: "0 < sz \<Longrightarrow> split_chunks sz d = split_spec (nat sz) d"
proof (induction sz d rule: split_chunks.induct)
  case (1 sz d)
  show ?case
  proof (cases "d = []")
    case True
    with "1.prems" show ?thesis by (simp add: split_chunks_Nil split_spec_Nil)
  next
    case False
    with "1.prems" have "fst (py_read sz d) \<noteq> []" by (simp add: py_read_def)
    with "1.IH" "1.prems" have "split_chunks sz (drop (nat sz) d) = split_spec (nat sz) (drop (nat sz) d)"
      by (simp add: py_read_def)
    with False "1.prems" show ?thesis by (simp add: split_chunks_pos split_spec_Cons)
  qed
qed

lemma concat_split_chunks: "sz \<noteq> 0 \<Longrightarrow> concat (split_chunks sz d) = d"
proof (induction sz d rule: split_chunks.induct)
  case (1 sz d)
  show ?case
  proof (cases "sz < 0 \<or> d = []")
    case True
    with "1.prems" show ?thesis by (auto simp: split_chunks_neg split_chunks_Nil)
  next
    case False
    with "1.prems" have pos: "0 < sz" and ne: "fst (py_read sz d) \<noteq> []"
      by (auto simp: py_read_def)
    with "1.IH" "1.prems" have "concat (split_chunks sz (drop (nat sz) d)) = drop (nat sz) d"
      by (simp add: py_read_def)
    with pos False show ?thesis by (simp add: split_chunks_pos)
  qed
qed

lemma chunk_entries_Nil [simp]: "chunk_entries key c [] = []"
  by (simp add: chunk_entries_def)

lemma chunk_entries_Cons [simp]:
  "chunk_entries key c (x # xs) = (chunk_key key c, x) # chunk_entries key (Suc c) xs"
  by (simp add: chunk_entries_def upt_conv_Cons del: upt_Suc)

lemma map_snd_chunk_entries [simp]: "map snd (chunk_entries key c xs) = xs"
  by (induction xs arbitrary: c) auto

lemma map_fst_chunk_entries: "map fst (chunk_entries key c xs) = map (chunk_key key) [c..<c + length xs]"
  by (simp add: chunk_entries_def)

lemma read_loop_eq:
  "read_loop key sz rest c cd =
     (fold (\<lambda>(k, v). AList.update k v) (chunk_entries key c (split_chunks sz rest)) cd,
      c + length (split_chunks sz rest))"
proof (induction key sz rest c cd rule: read_loop.induct)
  case (1 key sz rest c cd)
  show ?case
  proof (cases "fst (py_read sz rest) = []")
    case True
    then show ?thesis
      by (simp add: read_loop.simps [of key sz rest c cd] split_chunks.simps [of sz rest])
  next
    case False
    with "1.IH" show ?thesis
      by (simp add: read_loop.simps [of key sz rest c cd] split_chunks.simps [of sz rest] Let_def)
  qed
qed

lemma join_chunks_eq:
  "join_chunks items a n =
     (a @ concat (map (\<lambda>(k, c). case c of None \<Rightarrow> [] | Some x \<Rightarrow> x) items),
      n + length (filter (\<lambda>(k, c). c \<noteq> None) items))"
  by (induction items a n rule: join_chunks.induct) (auto split: option.splits)


lemma split_chunks_piece:
  "0 < sz \<Longrightarrow> c \<in> set (split_chunks sz d) \<Longrightarrow> c \<noteq> [] \<and> length c \<le> nat sz"
proof (induction sz d rule: split_chunks.induct)
  case (1 sz d)
  show ?case
  proof (cases "d = []")
    case True
    with "1.prems" show ?thesis by (simp add: split_chunks_Nil)
  next
    case False
    with "1.prems" have ne: "fst (py_read sz d) \<noteq> []" by (simp add: py_read_def)
    have eq: "split_chunks sz d = take (nat sz) d # split_chunks sz (drop (nat sz) d)"
      using "1.prems"(1) False by (rule split_chunks_pos)
    from "1.prems"(2) eq have "c = take (nat sz) d \<or> c \<in> set (split_chunks sz (drop (nat sz) d))"
      by simp
    then show ?thesis
    proof
      assume "c = take (nat sz) d"
      with False "1.prems"(1) show ?thesis by simp
    next
      assume "c \<in> set (split_chunks sz (drop (nat sz) d))"
      with "1.IH" [OF ne] "1.prems"(1) show ?thesis by (simp add: py_read_def)
    qed
  qed
qed

lemma split_chunks_full:
  "0 < sz \<Longrightarrow> c \<in> set (butlast (split_chunks sz d)) \<Longrightarrow> length c = nat sz"
proof (induction sz d rule: split_chunks.induct)
  case (1 sz d)
  show ?case
  proof (cases "d = []")
    case True
    with "1.prems" show ?thesis by (simp add: split_chunks_Nil)
  next
    case False
    with "1.prems" have ne: "fst (py_read sz d) \<noteq> []" by (simp add: py_read_def)
    have eq: "split_chunks sz d = take (nat sz) d # split_chunks sz (drop (nat sz) d)"
      using "1.prems"(1) False by (rule split_chunks_pos)
    show ?thesis
    proof (cases "drop (nat sz) d = []")
      case True
      with "1.prems"(2) eq show ?thesis by (simp add: split_chunks_Nil)
    next
      case False
      then have long: "nat sz < length d" by simp
      from False "1.prems"(1) have rest: "split_chunks sz (drop (nat sz) d) \<noteq> []"
        by (simp add: split_chunks_pos)
      from "1.prems"(2) eq rest
      have "c = take (nat sz) d \<or> c \<in> set (butlast (split_chunks sz (drop (nat sz) d)))"
        by simp
      then show ?thesis
      proof
        assume "c = take (nat sz) d"
        with long show ?thesis by simp
      next
        assume "c \<in> set (butlast (split_chunks sz (drop (nat sz) d)))"
        with "1.IH" [OF ne] "1.prems"(1) show ?thesis by (simp add: py_read_def)
      qed
    qed
  qed
qed

lemma length_split_spec: "length (split_spec n d) = (length d + n - 1) div n"
  by (simp add: split_spec_def)

lemma distinct_chunk_keys: "distinct (map (chunk_key key) [c..<n])"
  by (simp add: distinct_map inj_on_def)

lemma map_of_chunk_entries:
  "map_of (chunk_entries key 0 chs) (chunk_key key i) = (if i < length chs then Some (chs ! i) else None)"
proof (cases "i < length chs")
  case True
  have "map_of (zip (map (chunk_key key) [0..<length chs]) chs) (map (chunk_key key) [0..<length chs] ! i)
        = Some (chs ! i)"
    using True distinct_chunk_keys [of key 0 "length chs"] by (intro map_of_zip_nth) simp_all
  with True show ?thesis by (simp add: chunk_entries_def)
next
  case False
  then have "chunk_key key i \<notin> set (map (chunk_key key) [0..<length chs])"
    by (auto simp:)
  with False show ?thesis
    by (auto simp: chunk_entries_def map_of_eq_None_iff dest: set_zip_leftD)
qed

lemma map_of_chunk_dict:
  "map_of (fold (\<lambda>(k, v). AList.update k v) (chunk_entries key 0 chs) []) (chunk_key key i)
     = (if i < length chs then Some (chs ! i) else None)"
proof -
  have "distinct (map fst (chunk_entries key 0 chs))"
    by (simp add: map_fst_chunk_entries distinct_chunk_keys del: map_map)
  then show ?thesis
    by (simp add: map_of_fold_update map_of_rev_distinct map_of_chunk_entries)
qed

section \<open>Properties\<close>

text \<open>
  C2. Round trip of the codec: for every chunk size other than 0, reassembling the
  entries that the upload loop stores (each fetched as present) gives back the file
  contents, and the chunk count \<open>read_key\<close> reports is the number of chunks stored.
\<close>

theorem split_join_roundtrip: "sz \<noteq> 0 \<Longrightarrow>
  join_chunks (map (\<lambda>(k, c). (k, Some c)) (chunk_entries key 0 (split_chunks sz d))) [] 0
    = (d, length (split_chunks sz d))"
proof -
  assume sz: "sz \<noteq> 0"
  have "concat (map (\<lambda>(k, c). case c of None \<Rightarrow> [] | Some x \<Rightarrow> x)
          (map (\<lambda>(k, c). (k, Some c)) (chunk_entries key 0 (split_chunks sz d))))
        = concat (map snd (chunk_entries key 0 (split_chunks sz d)))"
    by (simp add: case_prod_beta comp_def)
  with sz show ?thesis
    by (simp add: join_chunks_eq concat_split_chunks comp_def case_prod_beta chunk_entries_def)
qed

text \<open>
  C3. Shape of the chunks for a positive chunk size: there are
  \<open>ceil (len / CHUNK_SIZE)\<close> of them, each non-empty and at most \<open>CHUNK_SIZE\<close>
  bytes long, and all but the last exactly \<open>CHUNK_SIZE\<close> bytes long.
\<close>

theorem split_chunks_shape:
  assumes "0 < sz"
  shows "length (split_chunks sz d) = (length d + nat sz - 1) div nat sz
     \<and> (\<forall>c \<in> set (split_chunks sz d). c \<noteq> [] \<and> length c \<le> nat sz)
     \<and> (\<forall>c \<in> set (butlast (split_chunks sz d)). length c = nat sz)"
  using assms split_chunks_eq_spec [OF assms] split_chunks_piece split_chunks_full
  by (simp add: length_split_spec)

text \<open>
  C5. The \<open>f.read\<close> loop of \<open>upload_file\<close> refines the closed-form split: for a
  positive chunk size, chunk \<open>i\<close> is the slice \<open>data[i*n : i*n + n]\<close>.
\<close>

theorem read_loop_refines_split_spec:
  assumes "0 < sz"
  shows "read_loop key sz d 0 [] =
    (fold (\<lambda>(k, v). AList.update k v) (chunk_entries key 0 (split_spec (nat sz) d)) [],
     length (split_spec (nat sz) d))"
  using assms by (simp add: read_loop_eq split_chunks_eq_spec)

section \<open>Witnesses\<close>

theorem split_join_roundtrip_witness:
  "(2::int) \<noteq> 0 \<and>
   join_chunks (map (\<lambda>(k, c). (k, Some c)) (chunk_entries ''doc1'' 0 (split_chunks 2 [65, 66, 67, 68, 69])))
     [] 0 = ([65, 66, 67, 68, 69], 3)"
  using split_join_roundtrip [of 2 "''doc1''" "[65, 66, 67, 68, 69]"] by (simp add: codec_simps)

theorem split_chunks_shape_witness:
  "(0::int) < 2 \<and> length (split_chunks 2 [65, 66, 67, 68, 69]) = 3
     \<and> list_all (\<lambda>c. c \<noteq> [] \<and> length c \<le> 2) (split_chunks 2 [65, 66, 67, 68, 69])
     \<and> list_all (\<lambda>c. length c = 2) (butlast (split_chunks 2 [65, 66, 67, 68, 69]))"
  using split_chunks_shape [of 2 "[65, 66, 67, 68, 69]"] by (simp add: list_all_iff)

theorem read_loop_refines_split_spec_witness:
  "(0::int) < 2 \<and> read_loop ''doc1'' 2 [65, 66, 67, 68, 69] 0 [] =
     ([(''doc1chunk0'', [65, 66]), (''doc1chunk1'', [67, 68]), (''doc1chunk2'', [69])], 3)"
  using read_loop_refines_split_spec [of 2 "''doc1''" "[65, 66, 67, 68, 69]"]
  by (simp add: split_spec_def chunk_key_def str_nat.simps digit_char_def char_of_eq_iff)

end
