(* ===== verification/KVStore.thy ===== *)
theory KVStore
  imports Prelude
begin

text \<open>
  The object store adapter: the PyDAOS dictionary \<open>pydaos_kvstore_dict\<close> of a
  DAOS container, through the calls src/auto_chunk.py makes on it: \<open>len\<close>,
  \<open>bget\<close>, \<open>bput\<close>, \<open>pop\<close>, \<open>in\<close> and \<open>keys()\<close>. PyDAOS is not part of the
  repository; these definitions follow spec section 4.2. A dictionary is an
  association list of (key, bytes) pairs without repeated keys (\<open>kv_inv\<close>); its
  abstract meaning is the map \<open>map_of\<close>, and each operation refines the
  corresponding map operation. Missing keys read as \<open>None\<close> in \<open>bget\<close>; \<open>pop\<close>
  of a missing key fails with NotFound, as the spec says.
\<close>

section \<open>Operations\<close>

definition kv_len :: "kv \<Rightarrow> nat" where
  "kv_len d = length d"

definition kv_bget :: "kv \<Rightarrow> string list \<Rightarrow> (string \<times> bytes option) list" where
  "kv_bget d keys = map (\<lambda>k. (k, map_of d k)) keys"

definition kv_bput :: "kv \<Rightarrow> kv \<Rightarrow> kv" where
  "kv_bput d entries = fold (\<lambda>(k, v). AList.update k v) entries d"

definition kv_contains :: "kv \<Rightarrow> string \<Rightarrow> bool" where
  "kv_contains d k \<longleftrightarrow> k \<in> set (map fst d)"

definition kv_keys :: "kv \<Rightarrow> string list" where
  "kv_keys d = map fst d"

definition kv_pop :: "kv \<Rightarrow> string \<Rightarrow> py_error + kv" where
  "kv_pop d k = (if kv_contains d k then Inr (AList.delete k d) else Inl (PopNotFound k))"

text \<open>The well-formedness invariant: no key occurs twice.\<close>

definition kv_inv :: "kv \<Rightarrow> bool" where
  "kv_inv d \<longleftrightarrow> distinct (map fst d)"

section \<open>Invariant\<close>

lemma kv_inv_Nil [simp]: "kv_inv []"
  by (simp add: kv_inv_def)

lemma kv_inv_bput: "kv_inv d \<Longrightarrow> kv_inv (kv_bput d entries)"
  by (simp add: kv_inv_def kv_bput_def distinct_fold_update)

lemma kv_inv_pop: "kv_inv d \<Longrightarrow> kv_pop d k = Inr d' \<Longrightarrow> kv_inv d'"
  by (auto simp: kv_inv_def kv_pop_def distinct_delete split: if_splits)

section \<open>Refinement of maps\<close>

lemma map_of_kv_bput [kv_simps]: "map_of (kv_bput d entries) = map_of d ++ map_of (rev entries)"
  by (simp add: kv_bput_def map_of_fold_update)

lemma map_of_kv_pop [kv_simps]: "kv_pop d k = Inr d' \<Longrightarrow> map_of d' = (map_of d)(k := None)"
  by (auto simp: kv_pop_def delete_conv' split: if_splits)

lemma kv_pop_fails_iff [kv_simps]: "(\<exists>e. kv_pop d k = Inl e) \<longleftrightarrow> map_of d k = None"
  by (auto simp: kv_pop_def kv_contains_def map_of_eq_None_iff)

lemma kv_contains_map_of [kv_simps]: "kv_contains d k \<longleftrightarrow> map_of d k \<noteq> None"
  by (simp add: kv_contains_def map_of_eq_None_iff)

lemma kv_bget_map_of [kv_simps]: "kv_bget d keys = map (\<lambda>k. (k, map_of d k)) keys"
  by (simp add: kv_bget_def)

lemma kv_len_card: "kv_inv d \<Longrightarrow> kv_len d = card (dom (map_of d))"
proof -
  assume "kv_inv d"
  then have "card (set (map fst d)) = length (map fst d)"
    unfolding kv_inv_def by (rule distinct_card)
  then show ?thesis by (simp add: kv_len_def dom_map_of_conv_image_fst)
qed

lemma kv_len_ge_card: "card (dom (map_of d)) \<le> kv_len d"
  by (simp add: kv_len_def card_dom_map_of_le_length)

lemma set_kv_keys: "set (kv_keys d) = dom (map_of d)"
  by (simp add: kv_keys_def dom_map_of_conv_image_fst)

end
