(* ===== verification/MetaStore.thy ===== *)
theory MetaStore
  imports Prelude
begin

text \<open>
  The metadata store of src/auto_chunk.py: the file \<open>metadata.json\<close>, a JSON list
  of records \<open>{pool, container, key, filename, size, upload_time}\<close> that every
  function reads whole and rewrites whole. The file is \<open>meta_rec list option\<close>,
  \<open>None\<close> when it does not exist (\<open>FileNotFoundError\<close>). The four functions
  that touch it are \<open>print_keys\<close>, \<open>delete_by_key\<close>,
  \<open>get_pool_and_container\<close> and \<open>append_to_json_file\<close>; each returns the new
  file and the lines it prints. Lookup returns the first record with the key, and
  appending does not check for an existing record with the same key.
\<close>

section \<open>Records and operations\<close>

text \<open>The JSON record written by \<open>upload_file\<close> (lines 202--209); the fields are
  prefixed with \<open>m_\<close> because \<open>key\<close> and \<open>size\<close> name HOL constants or variables.\<close>

record meta_rec =
  m_pool :: string
  m_container :: string
  m_key :: string
  m_filename :: string
  m_size :: nat
  m_upload_time :: nat

type_synonym meta_file = "meta_rec list option"

definition print_keys :: "meta_file \<Rightarrow> msg list" where
  "print_keys f = (case f of
      None \<Rightarrow> [MetaFileMissing]
    | Some data \<Rightarrow> map (\<lambda>item. KeyLine (m_key item)) data)"

definition delete_by_key :: "string \<Rightarrow> meta_file \<Rightarrow> meta_file \<times> msg list" where
  "delete_by_key key f = (case f of
      None \<Rightarrow> (None, [MetaFileMissing])
    | Some data \<Rightarrow>
        (let new_data = filter (\<lambda>item. m_key item \<noteq> key) data in
         if length new_data < length data then (Some new_data, [MetaDeleted key])
         else (Some data, [MetaKeyAbsent key])))"

definition get_pool_and_container :: "string \<Rightarrow> meta_file \<Rightarrow> (string \<times> string) option \<times> msg list" where
  "get_pool_and_container key f = (case f of
      None \<Rightarrow> (None, [MetaFileMissing])
    | Some data \<Rightarrow>
        (map_option (\<lambda>item. (m_pool item, m_container item)) (find (\<lambda>item. m_key item = key) data), []))"

definition append_to_json_file :: "meta_rec \<Rightarrow> meta_file \<Rightarrow> meta_file" where
  "append_to_json_file data f = (case f of
      None \<Rightarrow> Some [data]
    | Some existing_data \<Rightarrow> Some (existing_data @ [data]))"

text \<open>The location a lookup finds, without the printed lines.\<close>

abbreviation lookup_loc :: "string \<Rightarrow> meta_file \<Rightarrow> (string \<times> string) option" where
  "lookup_loc key f \<equiv> fst (get_pool_and_container key f)"

section \<open>Lemmas\<close>

lemma find_append_one:
  "find P (xs @ [x]) = (case find P xs of Some y \<Rightarrow> Some y | None \<Rightarrow> if P x then Some x else None)"
  by (induction xs) auto

lemma find_filter_other:
  "k' \<noteq> k \<Longrightarrow> find (\<lambda>item. m_key item = k') (filter (\<lambda>item. m_key item \<noteq> k) d)
     = find (\<lambda>item. m_key item = k') d"
  by (induction d) auto

lemma delete_by_key_file [meta_simps]:
  "fst (delete_by_key key f) = map_option (filter (\<lambda>item. m_key item \<noteq> key)) f"
proof (cases f)
  case (Some data)
  have "\<not> length (filter (\<lambda>item. m_key item \<noteq> key) data) < length data
        \<Longrightarrow> filter (\<lambda>item. m_key item \<noteq> key) data = data"
    by (auto simp: filter_id_conv dest: length_filter_less)
  with Some show ?thesis by (auto simp: delete_by_key_def Let_def)
qed (simp add: delete_by_key_def)

lemma lookup_loc_None_file [meta_simps]: "lookup_loc key None = None"
  by (simp add: get_pool_and_container_def)

lemma lookup_loc_Some_file [meta_simps]:
  "lookup_loc key (Some data) =
     map_option (\<lambda>item. (m_pool item, m_container item)) (find (\<lambda>item. m_key item = key) data)"
  by (simp add: get_pool_and_container_def)

lemma lookup_loc_None_iff: "lookup_loc key f = None \<longleftrightarrow> (\<forall>d. f = Some d \<longrightarrow> key \<notin> m_key ` set d)"
  by (cases f) (auto simp: get_pool_and_container_def find_None_iff)

lemma get_pool_and_container_found:
  "lookup_loc key f = Some pc \<Longrightarrow> get_pool_and_container key f = (Some pc, [])"
  by (cases f) (simp_all add: get_pool_and_container_def)

section \<open>Properties\<close>

text \<open>
  C6. After \<open>delete_by_key k\<close>, looking \<open>k\<close> up in the metadata file finds
  nothing, and the lookup of every other key is unchanged.
\<close>

theorem delete_by_key_lookup:
  "lookup_loc k (fst (delete_by_key k f)) = None
   \<and> (k' \<noteq> k \<longrightarrow> lookup_loc k' (fst (delete_by_key k f)) = lookup_loc k' f)"
  by (cases f) (auto simp: meta_simps find_filter_other find_None_iff)

text \<open>
  C7. Appending a record never changes what an existing key resolves to: the
  lookup takes the first record with the key, so a record appended for a key that
  already has one is never found (the store keeps duplicates, spec section 4.3).
\<close>

theorem append_lookup_first_match:
  "lookup_loc k (append_to_json_file r f) =
     (case lookup_loc k f of
        Some loc \<Rightarrow> Some loc
      | None \<Rightarrow> if m_key r = k then Some (m_pool r, m_container r) else None)"
  by (cases f) (auto simp: meta_simps append_to_json_file_def find_append_one split: option.splits)

section \<open>Witnesses\<close>

theorem delete_by_key_lookup_witness:
  "lookup_loc ''a'' (fst (delete_by_key ''a'' (Some [\<lparr>m_pool = ''p'', m_container = ''c'', m_key = ''a'',
       m_filename = ''f'', m_size = 1, m_upload_time = 0\<rparr>,
     \<lparr>m_pool = ''p'', m_container = ''d'', m_key = ''b'', m_filename = ''g'', m_size = 2,
       m_upload_time = 0\<rparr>]))) = None
   \<and> lookup_loc ''b'' (fst (delete_by_key ''a'' (Some [\<lparr>m_pool = ''p'', m_container = ''c'', m_key = ''a'',
       m_filename = ''f'', m_size = 1, m_upload_time = 0\<rparr>,
     \<lparr>m_pool = ''p'', m_container = ''d'', m_key = ''b'', m_filename = ''g'', m_size = 2,
       m_upload_time = 0\<rparr>])))
     = Some (''p'', ''d'')"
  using delete_by_key_lookup [of "''a''" "Some [\<lparr>m_pool = ''p'', m_container = ''c'', m_key = ''a'',
       m_filename = ''f'', m_size = 1, m_upload_time = 0\<rparr>,
     \<lparr>m_pool = ''p'', m_container = ''d'', m_key = ''b'', m_filename = ''g'', m_size = 2,
       m_upload_time = 0\<rparr>]" "''b''"]
  by (simp add: meta_simps)

end
