(* ===== verification/Orchestrator.thy ===== *)
theory Orchestrator
  imports ChunkCodec KVStore MetaStore
begin

text \<open>
  The transfer orchestrator of src/auto_chunk.py: the command handlers
  \<open>upload_file\<close>, \<open>read_key\<close>, \<open>delete_key1\<close> (the handler of command \<open>p\<close>) and
  \<open>delete_key\<close> (defined but never called), with their helpers
  \<open>get_daos_container\<close> and \<open>save_value_as_file\<close>. The program state is one
  record: the metadata file, the DAOS containers (each holding its
  \<open>pydaos_kvstore_dict\<close>, or \<open>None\<close> before the dictionary is created), the
  local files and directories, the container listing that
  \<open>pool_test.list_containers_in_pool_with_max_targets\<close> returns, the clock, and
  stdin and stdout. A handler that catches every exception returns the new state;
  one that can raise past its \<open>try\<close> returns \<open>py_error + state\<close>, \<open>Inl\<close> being
  the uncaught exception that ends the program.
\<close>

section \<open>State\<close>

record state =
  metadata_json :: meta_file
  conts :: "(string \<times> string) \<rightharpoonup> kv option"
  files :: "string \<rightharpoonup> bytes"
  dirs :: "string list"
  listing :: "string \<times> string list"
  clock :: nat
  stdin :: "string list"
  stdout :: "msg list"

definition upload_dir :: string where
  "upload_dir = ''uploads''"

section \<open>Input, output, files\<close>

definition print_msg :: "msg \<Rightarrow> state \<Rightarrow> state" where
  "print_msg m s = s\<lparr>stdout := stdout s @ [m]\<rparr>"

definition print_msgs :: "msg list \<Rightarrow> state \<Rightarrow> state" where
  "print_msgs ms s = s\<lparr>stdout := stdout s @ ms\<rparr>"

definition py_input :: "state \<Rightarrow> py_error + (string \<times> state)" where
  "py_input s = (case stdin s of
      [] \<Rightarrow> Inl EOFErr
    | line # rest \<Rightarrow> Inr (line, s\<lparr>stdin := rest\<rparr>))"

text \<open>\<open>os.path.basename\<close>, \<open>os.path.dirname\<close> and two-argument \<open>os.path.join\<close> of posixpath.\<close>

definition basename :: "string \<Rightarrow> string" where
  "basename p = rev (takeWhile (\<lambda>c. c \<noteq> CHR ''/'') (rev p))"

definition dirname :: "string \<Rightarrow> string" where
  "dirname p =
     (let head = rev (dropWhile (\<lambda>c. c \<noteq> CHR ''/'') (rev p)) in
      if head \<noteq> [] \<and> \<not> list_all (\<lambda>c. c = CHR ''/'') head
      then rev (dropWhile (\<lambda>c. c = CHR ''/'') (rev head)) else head)"

definition path_join :: "string \<Rightarrow> string \<Rightarrow> string" where
  "path_join a b =
     (if take 1 b = ''/'' then b
      else if a = [] \<or> last a = CHR ''/'' then a @ b
      else a @ ''/'' @ b)"

text \<open>\<open>open(path, "wb").write(value)\<close>: fails when the parent directory is missing.\<close>

definition write_file :: "string \<Rightarrow> bytes \<Rightarrow> state \<Rightarrow> py_error + state" where
  "write_file path value s =
     (if dirname path = [] \<or> dirname path \<in> set (dirs s)
      then Inr (s\<lparr>files := (files s)(path \<mapsto> value)\<rparr>)
      else Inl (NoSuchDirectory (dirname path)))"

definition save_path :: "string \<Rightarrow> string" where
  "save_path key = path_join upload_dir (key @ ''.dat'')"

definition save_value_as_file :: "string \<Rightarrow> bytes \<Rightarrow> state \<Rightarrow> py_error + state" where
  "save_value_as_file key value s =
     (case write_file (save_path key) value s of
        Inl e \<Rightarrow> Inl e
      | Inr s' \<Rightarrow> Inr (print_msg (ValueSaved (save_path key)) s'))"

section \<open>Containers\<close>

text \<open>
  \<open>DCont(pool, container)\<close> succeeds for an existing container; the dictionary is
  fetched with \<open>daos_cont.get\<close>, or created empty with \<open>daos_cont.dict\<close> when
  \<open>get\<close> raises (lines 88--91 and their copies).
\<close>

definition open_dict :: "string \<times> string \<Rightarrow> state \<Rightarrow> state \<times> kv" where
  "open_dict pc s = (case conts s pc of
      Some (Some d) \<Rightarrow> (s, d)
    | _ \<Rightarrow> (s\<lparr>conts := (conts s)(pc \<mapsto> Some [])\<rparr>, []))"

definition store_dict :: "string \<times> string \<Rightarrow> kv \<Rightarrow> state \<Rightarrow> state" where
  "store_dict pc d s = s\<lparr>conts := (conts s)(pc \<mapsto> Some d)\<rparr>"

text \<open>The loop of \<open>get_daos_container\<close> over the listed containers (lines 10--15).\<close>

fun try_containers :: "((string \<times> string) \<rightharpoonup> kv option) \<Rightarrow> string \<Rightarrow> string list
    \<Rightarrow> msg list \<times> (string \<times> string) option" where
  "try_containers cs pool [] = ([], None)"
| "try_containers cs pool (container # rest) =
     (if cs (pool, container) \<noteq> None then ([], Some (pool, container))
      else (let (ms, r) = try_containers cs pool rest in
            (ContainerAccessError container (NoSuchContainer pool container) # ms, r)))"

definition get_daos_container :: "state \<Rightarrow> (string \<times> string) option \<times> state" where
  "get_daos_container s =
     (let (ms, r) = try_containers (conts s) (fst (listing s)) (snd (listing s)) in
      (r, print_msgs ms s))"

text \<open>Python's \<open>str.startswith\<close>.\<close>

definition startswith :: "string \<Rightarrow> string \<Rightarrow> bool" where
  "startswith s p \<longleftrightarrow> take (length p) s = p"

text \<open>
  A loop of \<open>daos_dict.pop(k)\<close> over \<open>ks\<close>: the dictionary after the pops that
  ran and the exception of the first pop that failed, which ends the loop.
\<close>

fun pop_each :: "kv \<Rightarrow> string list \<Rightarrow> kv \<times> py_error option" where
  "pop_each d [] = (d, None)"
| "pop_each d (k # ks) = (case kv_pop d k of
      Inl e \<Rightarrow> (d, Some e)
    | Inr d' \<Rightarrow> pop_each d' ks)"

text \<open>
  The outcome of a handler whose exceptions can escape: \<open>Inl (e, s)\<close> is the
  uncaught exception \<open>e\<close>, raised in state \<open>s\<close> (what was written to the
  metadata file and to DAOS before it stays written).
\<close>

type_synonym result = "(py_error \<times> state) + state"

section \<open>Handlers\<close>

text \<open>\<open>upload_file\<close>, lines 185--230.\<close>

definition upload_file :: "int \<Rightarrow> state \<Rightarrow> result" where
  "upload_file chunk_size s0 =
     (case get_daos_container s0 of
        (None, s1) \<Rightarrow> Inl (UnpackNone, s1)
      | (Some pc, s1) \<Rightarrow>
          (let (s2, daos_dict) = open_dict pc s1 in
           case py_input s2 of
             Inl e \<Rightarrow> Inl (e, s2)
           | Inr (key, s3) \<Rightarrow>
               (case py_input s3 of
                  Inl e \<Rightarrow> Inl (e, s3)
                | Inr (file_path, s4) \<Rightarrow>
                    (case files s4 file_path of
                       None \<Rightarrow> Inr (print_msg FileNotFoundMsg s4)
                     | Some content \<Rightarrow>
                         (let metadata = \<lparr>m_pool = fst pc, m_container = snd pc, m_key = key,
                                m_filename = basename file_path, m_size = length content,
                                m_upload_time = clock s4\<rparr>;
                              s5 = s4\<lparr>metadata_json := append_to_json_file metadata (metadata_json s4)\<rparr>;
                              (chunk_dict, chunk_count) = read_loop key chunk_size content 0 [];
                              s6 = store_dict pc (kv_bput daos_dict chunk_dict) s5
                          in Inr (print_msg (UploadSuccess chunk_count) s6))))))"

text \<open>\<open>read_key\<close>, lines 81--115; every exception is caught and printed.\<close>

definition read_key :: "state \<Rightarrow> state" where
  "read_key s0 =
     (case py_input s0 of
        Inl e \<Rightarrow> print_msg (ReadError e) s0
      | Inr (key, s1) \<Rightarrow>
          (let (loc, ms) = get_pool_and_container key (metadata_json s1);
               s2 = print_msgs ms s1 in
           case loc of
             None \<Rightarrow> print_msg (ReadError UnpackNone) s2
           | Some (pool, container) \<Rightarrow>
               if conts s2 (pool, container) = None
               then print_msg (ReadError (NoSuchContainer pool container)) s2
               else
                 (let (s3, daos_dict) = open_dict (pool, container) s2;
                      chunk_keys = map (chunk_key key) [0..<kv_len daos_dict];
                      chunks = kv_bget daos_dict chunk_keys;
                      (assembled_data, chunk_count) = join_chunks chunks [] 0
                  in if assembled_data \<noteq> []
                     then (case save_value_as_file key assembled_data s3 of
                             Inl e \<Rightarrow> print_msg (ReadError e) s3
                           | Inr s4 \<Rightarrow> print_msg (ReadSuccess chunk_count) s4)
                     else print_msg KeyNotFoundMsg s3)))"

text \<open>\<open>delete_key1\<close>, lines 116--141, the handler of command \<open>p\<close>.\<close>

definition delete_key1 :: "state \<Rightarrow> state" where
  "delete_key1 s0 =
     (case py_input s0 of
        Inl e \<Rightarrow> print_msg (DeleteError e) s0
      | Inr (key, s1) \<Rightarrow>
          (let (loc, ms) = get_pool_and_container key (metadata_json s1);
               s2 = print_msgs ms s1 in
           case loc of
             None \<Rightarrow> print_msg (DeleteError UnpackNone) s2
           | Some (pool, container) \<Rightarrow>
               if conts s2 (pool, container) = None
               then print_msg (DeleteError (NoSuchContainer pool container)) s2
               else
                 (let (s3, daos_dict) = open_dict (pool, container) s2;
                      (mf, ms') = delete_by_key key (metadata_json s3);
                      s4 = print_msgs ms' (s3\<lparr>metadata_json := mf\<rparr>);
                      chunk_keys = map (chunk_key key) [0..<kv_len daos_dict]
                  in if chunk_keys \<noteq> []
                     then (let (d', err) = pop_each daos_dict chunk_keys;
                               s5 = store_dict (pool, container) d' s4
                           in case err of
                                None \<Rightarrow> print_msg KeyDeletedMsg s5
                              | Some e \<Rightarrow> print_msg (DeleteError e) s5)
                     else print_msg KeyNotDeletedMsg s4)))"

text \<open>\<open>delete_key\<close>, lines 147--168: never called by the command loop.\<close>

definition delete_key :: "state \<Rightarrow> result" where
  "delete_key s0 =
     (case py_input s0 of
        Inl e \<Rightarrow> Inl (e, s0)
      | Inr (key, s1) \<Rightarrow>
          (let (loc, ms) = get_pool_and_container key (metadata_json s1);
               s2 = print_msgs ms s1 in
           case loc of
             None \<Rightarrow> Inl (UnpackNone, s2)
           | Some (pool, container) \<Rightarrow>
               if conts s2 (pool, container) = None
               then Inl (NoSuchContainer pool container, s2)
               else
                 (let (s3, daos_dict) = open_dict (pool, container) s2 in
                  if kv_contains daos_dict key
                  then (case kv_pop daos_dict key of
                          Inl e \<Rightarrow> Inl (e, s3)
                        | Inr d1 \<Rightarrow>
                            (let doomed = filter (\<lambda>ck. startswith ck (key @ ''chunk'')) (kv_keys d1);
                                 (d2, err) = pop_each d1 doomed;
                                 s4 = store_dict (pool, container) d2 s3
                             in case err of
                                  None \<Rightarrow> Inr (print_msg (KeyAndChunksDeleted key) s4)
                                | Some e \<Rightarrow> Inl (e, s4)))
                  else Inr (print_msg NoKeyFound s3))))"


section \<open>Well-formedness of the stores\<close>

text \<open>
  Every DAOS dictionary of every container has no repeated key (\<open>kv_inv\<close>), and the
  state a handler leaves, whether it returns or raises, is read off its result.
\<close>

definition store_inv :: "state \<Rightarrow> bool" where
  "store_inv s \<longleftrightarrow> (\<forall>pc d. conts s pc = Some (Some d) \<longrightarrow> kv_inv d)"

definition result_state :: "result \<Rightarrow> state" where
  "result_state r = (case r of Inl (e, s) \<Rightarrow> s | Inr s \<Rightarrow> s)"

section \<open>A concrete state\<close>

text \<open>
  One container \<open>cont1\<close> in pool \<open>pool0\<close> without its dictionary yet, a
  listing whose first container \<open>cont0\<close> does not exist, one local file, and the
  input lines of an upload of that file as \<open>doc1\<close> followed by a read of \<open>doc1\<close>.
\<close>

definition demo_state :: state where
  "demo_state = \<lparr>metadata_json = None, conts = [(''pool0'', ''cont1'') \<mapsto> None],
     files = [''/data/report.bin'' \<mapsto> [65, 66, 67, 68, 69]], dirs = [''uploads''],
     listing = (''pool0'', [''cont0'', ''cont1'']), clock = 1700,
     stdin = [''doc1'', ''/data/report.bin'', ''doc1''], stdout = []\<rparr>"

text \<open>
  The state after \<open>doc1\<close> was uploaded in three chunks into \<open>cont1\<close>, which
  also holds an unrelated entry, with \<open>doc1\<close> twice on stdin.
\<close>

definition stored_state :: state where
  "stored_state = demo_state\<lparr>
     metadata_json := Some [\<lparr>m_pool = ''pool0'', m_container = ''cont1'', m_key = ''doc1'',
        m_filename = ''report.bin'', m_size = 5, m_upload_time = 1700\<rparr>],
     conts := [(''pool0'', ''cont1'') \<mapsto> Some (chunk_entries ''doc1'' 0 [[65, 66], [67, 68], [69]]
        @ [(''notes'', [1])])],
     stdin := [''doc1'', ''doc1'']\<rparr>"

section \<open>Lemmas\<close>

lemma join_chunk_range:
  assumes vals: "\<And>i. map_of d (chunk_key key i) = (if i < length chs then Some (chs ! i) else None)"
    and len: "length chs \<le> L"
  shows "join_chunks (kv_bget d (map (chunk_key key) [0..<L])) [] 0 = (concat chs, length chs)"
proof -
  have split: "[0..<L] = [0..<length chs] @ [length chs..<L]"
    using len by (metis le0 upt_add_eq_append le_add_diff_inverse)
  have "map (\<lambda>i. case map_of d (chunk_key key i) of None \<Rightarrow> [] | Some x \<Rightarrow> x) [0..<length chs]
        = map (\<lambda>i. chs ! i) [0..<length chs]"
    by (rule map_cong) (simp_all add: vals)
  then have "concat (map (\<lambda>i. case map_of d (chunk_key key i) of None \<Rightarrow> [] | Some x \<Rightarrow> x) [0..<length chs])
        = concat chs"
    by (simp add: map_nth)
  moreover have "concat (map (\<lambda>i. case map_of d (chunk_key key i) of None \<Rightarrow> [] | Some x \<Rightarrow> x) [length chs..<L]) = []"
    using vals by simp
  moreover have "length (filter (\<lambda>i. map_of d (chunk_key key i) \<noteq> None) [0..<length chs]) = length chs"
    using vals by (simp add: filter_True)
  moreover have "filter (\<lambda>i. map_of d (chunk_key key i) \<noteq> None) [length chs..<L] = []"
    using vals by (simp add: filter_empty_conv)
  ultimately show ?thesis
    by (simp add: join_chunks_eq kv_bget_def split comp_def filter_map)
qed

lemma kv_len_ge_chunks:
  assumes vals: "\<And>i. i < n \<Longrightarrow> map_of d (chunk_key key i) \<noteq> None"
  shows "n \<le> kv_len d"
proof -
  have "chunk_key key ` {..<n} \<subseteq> dom (map_of d)" using vals by auto
  then have "card (chunk_key key ` {..<n}) \<le> card (dom (map_of d))"
    by (simp add: card_mono finite_dom_map_of)
  with kv_len_ge_card [of d] show ?thesis by (simp add: card_chunk_key_range)
qed

lemma dirname_upload_path: "CHR ''/'' \<notin> set x \<Longrightarrow> dirname (''uploads/'' @ x) = ''uploads''"
proof -
  assume x: "CHR ''/'' \<notin> set x"
  have "dropWhile (\<lambda>c. c \<noteq> CHR ''/'') (rev x @ rev ''uploads/'') = rev ''uploads/''"
    using x by (subst dropWhile_append2) auto
  then show ?thesis by (simp add: dirname_def)
qed

lemma save_path_plain: "CHR ''/'' \<notin> set key \<Longrightarrow> save_path key = ''uploads/'' @ key @ ''.dat''"
  by (cases key) (auto simp: save_path_def path_join_def upload_dir_def)

lemma try_containers_Some:
  "try_containers cs pool l = (ms, Some pc) \<Longrightarrow> cs pc \<noteq> None"
  by (induction cs pool l arbitrary: ms rule: try_containers.induct)
     (auto split: if_splits prod.splits)

lemma upload_file_Inr_container:
  "upload_file sz s = Inr s' \<Longrightarrow>
   \<exists>ms pc. try_containers (conts s) (fst (listing s)) (snd (listing s)) = (ms, Some pc)"
  by (auto simp: upload_file_def get_daos_container_def split: prod.splits option.splits)

lemma upload_file_ok:
  assumes tc: "try_containers (conts s) (fst (listing s)) (snd (listing s)) = (ms, Some pc)"
    and inp: "stdin s = key # file_path # rest"
    and fl: "files s file_path = Some content"
    and up: "upload_file sz s = Inr s'"
  shows "metadata_json s' = append_to_json_file
            \<lparr>m_pool = fst pc, m_container = snd pc, m_key = key, m_filename = basename file_path,
             m_size = length content, m_upload_time = clock s\<rparr> (metadata_json s)
     \<and> conts s' = (conts s)(pc \<mapsto> Some (kv_bput (snd (open_dict pc s))
            (fold (\<lambda>(k, v). AList.update k v) (chunk_entries key 0 (split_chunks sz content)) [])))
     \<and> files s' = files s \<and> dirs s' = dirs s \<and> stdin s' = rest
     \<and> stdout s' = stdout s @ ms @ [UploadSuccess (length (split_chunks sz content))]"
  using up tc inp fl
  by (auto simp: upload_file_def get_daos_container_def py_input_def open_dict_def store_dict_def
      print_msg_def print_msgs_def read_loop_eq split: option.splits prod.splits)

lemma read_key_saves:
  assumes inp: "stdin s = key # rest"
    and loc: "lookup_loc key (metadata_json s) = Some pc"
    and dict: "conts s pc = Some (Some d)"
    and join: "join_chunks (kv_bget d (map (chunk_key key) [0..<kv_len d])) [] 0 = (data, n)"
    and ne: "data \<noteq> []" and nokey: "CHR ''/'' \<notin> set key" and dir: "''uploads'' \<in> set (dirs s)"
  shows "read_key s = s\<lparr>stdin := rest, files := (files s)(save_path key \<mapsto> data),
                         stdout := stdout s @ [ValueSaved (save_path key), ReadSuccess n]\<rparr>"
proof -
  have "CHR ''/'' \<notin> set (key @ ''.dat'')" using nokey by simp
  then have "dirname (''uploads/'' @ key @ ''.dat'') = ''uploads''" by (rule dirname_upload_path)
  then have dn: "dirname (save_path key) = ''uploads''" by (simp only: save_path_plain [OF nokey])
  obtain pool container where pc: "pc = (pool, container)" by (cases pc)
  show ?thesis
    using inp loc dict join ne dir dn pc
    by (simp add: read_key_def py_input_def get_pool_and_container_found print_msgs_def
        open_dict_def save_value_as_file_def write_file_def print_msg_def)
qed

lemma map_of_bput_chunks:
  assumes "\<And>i. map_of d0 (chunk_key key i) = None"
  shows "map_of (kv_bput d0 (fold (\<lambda>(k, v). AList.update k v) (chunk_entries key 0 chs) []))
           (chunk_key key i) = (if i < length chs then Some (chs ! i) else None)"
proof -
  have "distinct (map fst (fold (\<lambda>(k, v). AList.update k v) (chunk_entries key 0 chs) []))"
    by (rule distinct_fold_update) simp
  then have "map_of (rev (fold (\<lambda>(k, v). AList.update k v) (chunk_entries key 0 chs) []))
           = map_of (fold (\<lambda>(k, v). AList.update k v) (chunk_entries key 0 chs) [])"
    by (rule map_of_rev_distinct)
  with assms show ?thesis
    by (simp add: map_of_kv_bput map_add_def map_of_chunk_dict split: option.splits)
qed


lemma result_state_simps [simp]:
  "result_state (Inl (e, s)) = s" "result_state (Inr s) = s"
  by (simp_all add: result_state_def)

subsection \<open>Each handler keeps the stores well formed\<close>

lemma pop_each_inv: "pop_each d ks = (d', e) \<Longrightarrow> kv_inv d \<Longrightarrow> kv_inv d'"
  by (induction d ks arbitrary: d' e rule: pop_each.induct) (auto dest: kv_inv_pop split: sum.splits)

lemmas handler_unfolds = Let_def py_input_def print_msg_def print_msgs_def save_value_as_file_def write_file_def open_dict_def store_dict_def get_daos_container_def

lemma read_key_inv: "store_inv s \<Longrightarrow> store_inv (read_key s)"
  unfolding read_key_def store_inv_def
  by (auto simp: handler_unfolds split: list.splits prod.splits option.splits sum.splits if_splits)

lemma delete_key1_inv: "store_inv s \<Longrightarrow> store_inv (delete_key1 s)"
  unfolding delete_key1_def store_inv_def
  by (auto simp: handler_unfolds dest: pop_each_inv
      split: list.splits prod.splits option.splits sum.splits if_splits)

lemma upload_file_inv: "store_inv s \<Longrightarrow> store_inv (result_state (upload_file sz s))"
  unfolding upload_file_def store_inv_def result_state_def
  by (auto simp: handler_unfolds kv_inv_bput
      split: list.splits prod.splits option.splits sum.splits if_splits)

lemma delete_key_inv:
  assumes "store_inv s"
  shows "store_inv (result_state (delete_key s))"
proof -
  have step: "kv_inv d \<Longrightarrow> kv_pop d k = Inr d1 \<Longrightarrow> pop_each d1 ks = (d2, e) \<Longrightarrow> kv_inv d2"
    for d k d1 ks d2 e
    by (blast intro: pop_each_inv kv_inv_pop)
  from assms show ?thesis
    unfolding delete_key_def store_inv_def result_state_def
    by (auto simp: handler_unfolds kv_contains_def dest: step
        split: list.splits prod.splits option.splits sum.splits if_splits)
qed

lemma read_key_unresolved:
  assumes inp: "stdin s = key # rest" and none: "lookup_loc key (metadata_json s) = None"
  shows "read_key s = s\<lparr>stdin := rest, stdout := stdout s
            @ snd (get_pool_and_container key (metadata_json s)) @ [ReadError UnpackNone]\<rparr>"
proof -
  obtain ms where "get_pool_and_container key (metadata_json s) = (None, ms)"
    using none by (cases "get_pool_and_container key (metadata_json s)") auto
  with inp show ?thesis by (simp add: read_key_def py_input_def print_msgs_def print_msg_def)
qed

lemma delete_key1_meta:
  assumes inp: "stdin s = key # rest"
    and opened: "\<And>pc. lookup_loc key (metadata_json s) = Some pc \<Longrightarrow> conts s pc \<noteq> None"
  shows "lookup_loc key (metadata_json (delete_key1 s)) = None"
proof (cases "lookup_loc key (metadata_json s)")
  case None
  obtain ms where "get_pool_and_container key (metadata_json s) = (None, ms)"
    using None by (cases "get_pool_and_container key (metadata_json s)") auto
  with inp None show ?thesis
    by (simp add: delete_key1_def py_input_def print_msgs_def print_msg_def)
next
  case (Some pc)
  obtain pool container where pc: "pc = (pool, container)" by (cases pc)
  have found: "get_pool_and_container key (metadata_json s) = (Some pc, [])"
    using Some by (rule get_pool_and_container_found)
  have "lookup_loc key (fst (delete_by_key key (metadata_json s))) = None"
    by (cases "metadata_json s") (auto simp: meta_simps find_None_iff)
  with inp found opened [OF Some] pc show ?thesis
    by (auto simp: delete_key1_def py_input_def print_msgs_def print_msg_def open_dict_def
        store_dict_def Let_def split: option.splits prod.splits)
qed

lemma map_of_fold_delete:
  "map_of (fold AList.delete ks d) k = (if k \<in> set ks then None else map_of d k)"
  by (induction ks arbitrary: d) (auto simp: delete_conv')

lemma kv_pop_present: "map_of d k \<noteq> None \<Longrightarrow> kv_pop d k = Inr (AList.delete k d)"
  by (simp add: kv_pop_def kv_contains_map_of)

lemma pop_each_present:
  "distinct ks \<Longrightarrow> (\<forall>k \<in> set ks. map_of d k \<noteq> None) \<Longrightarrow> pop_each d ks = (fold AList.delete ks d, None)"
proof (induction ks arbitrary: d)
  case (Cons a ks)
  have pop: "kv_pop d a = Inr (AList.delete a d)" using Cons.prems by (simp add: kv_pop_present)
  have "\<forall>k \<in> set ks. map_of (AList.delete a d) k \<noteq> None" using Cons.prems by (auto simp: delete_conv')
  then have "pop_each (AList.delete a d) ks = (fold AList.delete ks (AList.delete a d), None)"
    using Cons.prems by (intro Cons.IH) auto
  with pop show ?case by simp
qed simp

lemma pop_each_stops:
  "distinct (ks @ [k]) \<Longrightarrow> (\<forall>k' \<in> set ks. map_of d k' \<noteq> None) \<Longrightarrow> map_of d k = None \<Longrightarrow>
   pop_each d (ks @ k # ks') = (fold AList.delete ks d, Some (PopNotFound k))"
proof (induction ks arbitrary: d)
  case Nil
  then show ?case by (simp add: kv_pop_def kv_contains_map_of)
next
  case (Cons a ks)
  have pop: "kv_pop d a = Inr (AList.delete a d)" using Cons.prems by (simp add: kv_pop_present)
  have "\<forall>k' \<in> set ks. map_of (AList.delete a d) k' \<noteq> None" "map_of (AList.delete a d) k = None"
    using Cons.prems by (auto simp: delete_conv')
  then have "pop_each (AList.delete a d) (ks @ k # ks') = (fold AList.delete ks (AList.delete a d), Some (PopNotFound k))"
    using Cons.prems by (intro Cons.IH) auto
  with pop show ?case by simp
qed

lemma pop_each_chunk_range:
  assumes chunks: "\<forall>i. (map_of d (chunk_key key i) \<noteq> None) = (i < n)" and le: "n \<le> L"
  shows "pop_each d (map (chunk_key key) [0..<L]) =
     (fold AList.delete (map (chunk_key key) [0..<n]) d,
      if L = n then None else Some (PopNotFound (chunk_key key n)))"
proof (cases "L = n")
  case True
  with chunks show ?thesis by (simp add: pop_each_present distinct_chunk_keys)
next
  case False
  with le have "[0..<L] = [0..<n] @ n # [Suc n..<L]"
    by (metis le_neq_implies_less upt_add_eq_append upt_conv_Cons le0 le_add_diff_inverse)
  moreover have "distinct (map (chunk_key key) [0..<n] @ [chunk_key key n])"
    using distinct_chunk_keys [of key 0 "Suc n"] by simp
  moreover have "\<forall>k' \<in> set (map (chunk_key key) [0..<n]). map_of d k' \<noteq> None"
    using chunks by auto
  moreover have "map_of d (chunk_key key n) = None" using chunks by auto
  ultimately show ?thesis using False by (simp add: pop_each_stops)
qed

lemma try_containers_None:
  "(\<forall>c \<in> set l. cs (pool, c) = None) \<Longrightarrow> snd (try_containers cs pool l) = None"
  by (induction cs pool l rule: try_containers.induct) (auto split: prod.splits)

section \<open>Properties\<close>

text \<open>
  C13. Reading a key that has no metadata record (or with no metadata file) touches
  neither DAOS nor the local files nor the metadata: \<open>read_key\<close> only consumes the
  key and prints the \<open>TypeError\<close> of unpacking \<open>None\<close> as "Error reading key",
  not "Key not found." as spec section 8 expects.
\<close>

theorem read_key_unknown_key:
  assumes "stdin s = key # rest" and "lookup_loc key (metadata_json s) = None"
  shows "conts (read_key s) = conts s \<and> files (read_key s) = files s
     \<and> metadata_json (read_key s) = metadata_json s \<and> stdin (read_key s) = rest
     \<and> last (stdout (read_key s)) = ReadError UnpackNone"
  using assms by (simp add: read_key_unresolved)

text \<open>
  C14. Deleting a key whose chunks are the entries \<open>0..n-1\<close> of its container
  removes every one of them and its metadata records and keeps every entry that is no
  chunk key of it; it reports success only when the container holds nothing else,
  and otherwise "Error delete key" for the first index past the last chunk, although
  the deletion is complete (spec section 4.4 tolerates NotFound per entry).
\<close>

theorem delete_key1_chunks:
  assumes inp: "stdin s = key # rest" and loc: "lookup_loc key (metadata_json s) = Some pc"
    and dict: "conts s pc = Some (Some d)"
    and chunks: "\<forall>i. (map_of d (chunk_key key i) \<noteq> None) = (i < n)" and pos: "0 < n"
  shows "(\<exists>d'. conts (delete_key1 s) pc = Some (Some d') \<and> (\<forall>i. map_of d' (chunk_key key i) = None)
            \<and> (\<forall>k. k \<notin> range (chunk_key key) \<longrightarrow> map_of d' k = map_of d k))
     \<and> lookup_loc key (metadata_json (delete_key1 s)) = None
     \<and> last (stdout (delete_key1 s)) =
         (if kv_len d = n then KeyDeletedMsg else DeleteError (PopNotFound (chunk_key key n)))"
proof -
  obtain pool container where pc: "pc = (pool, container)" by (cases pc)
  have found: "get_pool_and_container key (metadata_json s) = (Some pc, [])"
    using loc by (rule get_pool_and_container_found)
  have le: "n \<le> kv_len d" using chunks by (intro kv_len_ge_chunks [where key = key]) simp
  define d' where "d' = fold AList.delete (map (chunk_key key) [0..<n]) d"
  have pops: "pop_each d (map (chunk_key key) [0..<kv_len d]) =
     (d', if kv_len d = n then None else Some (PopNotFound (chunk_key key n)))"
    unfolding d'_def using chunks le by (rule pop_each_chunk_range)
  have gone: "\<forall>i. map_of d' (chunk_key key i) = None"
  proof
    fix i
    show "map_of d' (chunk_key key i) = None"
    proof (cases "i < n")
      case True
      then show ?thesis by (simp add: d'_def map_of_fold_delete)
    next
      case False
      with chunks show ?thesis by (auto simp: d'_def map_of_fold_delete)
    qed
  qed
  have kept: "\<forall>k. k \<notin> range (chunk_key key) \<longrightarrow> map_of d' k = map_of d k"
    by (auto simp: d'_def map_of_fold_delete)
  have meta: "lookup_loc key (fst (delete_by_key key (metadata_json s))) = None"
    by (cases "metadata_json s") (auto simp: meta_simps find_None_iff)
  have nz: "kv_len d \<noteq> 0" using le pos by simp
  show ?thesis
    using inp found dict pc pops gone kept meta nz
    by (auto simp: delete_key1_def py_input_def print_msgs_def print_msg_def open_dict_def
        store_dict_def Let_def split: prod.splits)
qed

text \<open>
  C15. With chunk size 0 (\<open>n = 0\<close> at start-up, which nothing rejects) an upload
  stores no chunk, leaves the container's dictionary as it was, still appends the
  metadata record, and reports success with 0 chunks.
\<close>

theorem upload_zero_chunk_size:
  assumes up: "upload_file 0 s = Inr s'" and inp: "stdin s = key # file_path # rest"
    and fl: "files s file_path = Some content"
  shows "last (stdout s') = UploadSuccess 0
     \<and> (\<exists>pc. conts s' = (conts s)(pc \<mapsto> Some (snd (open_dict pc s))))
     \<and> metadata_json s' \<noteq> None \<and> m_key (last (the (metadata_json s'))) = key"
proof -
  obtain ms pc where tc: "try_containers (conts s) (fst (listing s)) (snd (listing s)) = (ms, Some pc)"
    using upload_file_Inr_container [OF up] by blast
  from upload_file_ok [OF tc inp fl up] show ?thesis
    by (cases pc) (auto simp: split_chunks_zero kv_bput_def append_to_json_file_def split: option.splits)
qed


section \<open>Witnesses\<close>

theorem read_key_unknown_key_witness:
  "conts (read_key (demo_state\<lparr>stdin := [''doc1'']\<rparr>)) = conts demo_state
   \<and> files (read_key (demo_state\<lparr>stdin := [''doc1'']\<rparr>)) = files demo_state
   \<and> last (stdout (read_key (demo_state\<lparr>stdin := [''doc1'']\<rparr>))) = ReadError UnpackNone"
  using read_key_unknown_key [of "demo_state\<lparr>stdin := [''doc1'']\<rparr>" "''doc1''" "[]"]
  by (simp add: demo_state_def meta_simps)

lemma chunk_key_not_notes: "chunk_key ''doc1'' i \<noteq> ''notes''"
  by (simp add: chunk_key_def)

theorem delete_key1_chunks_witness:
  "lookup_loc ''doc1'' (metadata_json (delete_key1 stored_state)) = None
   \<and> last (stdout (delete_key1 stored_state)) = DeleteError (PopNotFound (chunk_key ''doc1'' 3))"
proof -
  define d where "d = chunk_entries ''doc1'' 0 [[65, 66], [67, 68], [69]] @ [(''notes'', [1 :: byte])]"
  have chunks: "\<forall>i. (map_of d (chunk_key ''doc1'' i) \<noteq> None) = (i < 3)"
    using chunk_key_not_notes by (auto simp: d_def map_of_chunk_entries)
  have "kv_len d = 4" by (simp add: d_def kv_len_def)
  moreover have "stdin stored_state = ''doc1'' # [''doc1'']"
    "lookup_loc ''doc1'' (metadata_json stored_state) = Some (''pool0'', ''cont1'')"
    "conts stored_state (''pool0'', ''cont1'') = Some (Some d)"
    by (simp_all add: stored_state_def demo_state_def d_def meta_simps)
  ultimately show ?thesis
    using delete_key1_chunks [of stored_state "''doc1''" "[''doc1'']" "(''pool0'', ''cont1'')" d 3] chunks
    by simp
qed

theorem upload_zero_chunk_size_witness:
  "\<exists>s'. upload_file 0 demo_state = Inr s' \<and> last (stdout s') = UploadSuccess 0
     \<and> m_key (last (the (metadata_json s'))) = ''doc1''"
proof -
  have "\<not> isl (upload_file 0 demo_state)" by code_simp
  then obtain s' where up: "upload_file 0 demo_state = Inr s'" by (cases "upload_file 0 demo_state") auto
  have "stdin demo_state = ''doc1'' # ''/data/report.bin'' # [''doc1'']"
    "files demo_state ''/data/report.bin'' = Some [65, 66, 67, 68, 69]"
    by (simp_all add: demo_state_def)
  with up upload_zero_chunk_size [OF up] show ?thesis by blast
qed

end
