(* ===== verification/Session.thy ===== *)
theory Session
  imports Orchestrator
begin

text \<open>
  The interactive program of src/auto_chunk.py: start-up (lines 16--20: create the
  \<open>uploads\<close> directory, read the chunk size in MB with \<open>int(input())\<close>) and the
  command loop (lines 232--252: print the menu, read a command, dispatch to a
  handler, stop at \<open>q\<close>). One iteration is the function \<open>step\<close>; the loop is
  \<open>run\<close>, which terminates because every iteration consumes the command line
  from stdin; the states one run passes through are the relation \<open>reach\<close>.
  An \<open>EOFError\<close> at a prompt outside a \<open>try\<close>, a failed \<open>int()\<close>, and the
  uncaught exceptions of \<open>upload_file\<close> end the program as \<open>Inl\<close>.
\<close>

section \<open>Python's int() on a line\<close>






section \<open>The command loop\<close>

definition print_help :: "state \<Rightarrow> state" where
  "print_help s = print_msg HelpText s"

datatype outcome = Continue state | Quit state | Crash py_error state

text \<open>The \<open>if/elif\<close> chain on the command (lines 237--250).\<close>

definition dispatch :: "int \<Rightarrow> string \<Rightarrow> state \<Rightarrow> outcome" where
  "dispatch chunk_size cmd s =
     (if cmd = ''?'' then Continue (print_help s)
      else if cmd = ''r'' then Continue (read_key s)
      else if cmd = ''u'' then
        (case upload_file chunk_size s of
           Inl (e, s') \<Rightarrow> Crash e s'
         | Inr s' \<Rightarrow> Continue s')
      else if cmd = ''p'' then Continue (delete_key1 s)
      else if cmd = ''d'' then Continue (print_msgs (print_keys (metadata_json s)) s)
      else if cmd = ''q'' then Quit (print_msg ProgramEnded s)
      else Continue (print_msg InvalidCommand s))"

text \<open>One iteration of \<open>while True\<close> (lines 233--250): menu, prompt, dispatch.\<close>

definition step :: "int \<Rightarrow> state \<Rightarrow> outcome" where
  "step chunk_size s =
     (let s1 = print_help (print_msg CommandsBanner s) in
      case py_input s1 of
        Inl e \<Rightarrow> Crash e s1
      | Inr (cmd, s2) \<Rightarrow> dispatch chunk_size cmd s2)"

section \<open>Every iteration consumes input\<close>

lemma read_key_stdin: "stdin (read_key s) = tl (stdin s)"
  unfolding read_key_def
  by (auto simp: handler_unfolds split: list.splits prod.splits option.splits sum.splits if_splits)

lemma delete_key1_stdin: "stdin (delete_key1 s) = tl (stdin s)"
  unfolding delete_key1_def
  by (auto simp: handler_unfolds split: list.splits prod.splits option.splits sum.splits if_splits)

lemma upload_file_stdin: "upload_file sz s = Inr s' \<Longrightarrow> stdin s' = drop 2 (stdin s)"
  unfolding upload_file_def
  by (auto simp: handler_unfolds split: list.splits prod.splits option.splits sum.splits if_splits)

lemma dispatch_stdin:
  "dispatch cs c s = Continue s' \<Longrightarrow> length (stdin s') \<le> length (stdin s)"
  unfolding dispatch_def
  by (auto simp: print_help_def print_msg_def print_msgs_def read_key_stdin delete_key1_stdin
      dest!: upload_file_stdin split: if_splits sum.splits prod.splits)

lemma step_consumes:
  "step cs s = Continue s' \<Longrightarrow> length (stdin s') < length (stdin s)"
  by (fastforce simp: step_def Let_def print_help_def print_msg_def py_input_def
      dest: dispatch_stdin split: list.splits)

section \<open>The loop, start-up and reachable states\<close>

function run :: "int \<Rightarrow> state \<Rightarrow> result" where
  "run cs s = (case step cs s of
      Continue s' \<Rightarrow> run cs s'
    | Quit s' \<Rightarrow> Inr s'
    | Crash e s' \<Rightarrow> Inl (e, s'))"
  by pat_completeness auto
termination
  by (relation "measure (\<lambda>(cs, s). length (stdin s))") (auto dest: step_consumes)


inductive reach :: "int \<Rightarrow> state \<Rightarrow> state \<Rightarrow> bool" for cs :: int where
  reach_refl: "reach cs s s"
| reach_step: "step cs s = Continue s1 \<Longrightarrow> reach cs s1 s' \<Longrightarrow> reach cs s s'"

text \<open>
  The loop with an explicit bound on its iterations, to state how many it makes:
  \<open>None\<close> when the bound runs out.
\<close>

fun run_fuel :: "nat \<Rightarrow> int \<Rightarrow> state \<Rightarrow> result option" where
  "run_fuel 0 cs s = None"
| "run_fuel (Suc n) cs s = (case step cs s of
      Continue s' \<Rightarrow> run_fuel n cs s'
    | Quit s' \<Rightarrow> Some (Inr s')
    | Crash e s' \<Rightarrow> Some (Inl (e, s')))"

definition outcome_state :: "outcome \<Rightarrow> state" where
  "outcome_state out = (case out of Continue s \<Rightarrow> s | Quit s \<Rightarrow> s | Crash e s \<Rightarrow> s)"

section \<open>A concrete session\<close>

text \<open>The same state with the command lines of an upload, a read and \<open>q\<close>.\<close>

definition session_state :: state where
  "session_state = demo_state\<lparr>stdin := [''u'', ''doc1'', ''/data/report.bin'', ''r'', ''doc1'', ''q'']\<rparr>"

section \<open>Lemmas\<close>

declare run.simps [simp del]

lemma store_inv_frame [simp]:
  "store_inv (print_msg m s) = store_inv s"
  "store_inv (print_msgs ms s) = store_inv s"
  "store_inv (print_help s) = store_inv s"
  "store_inv (s\<lparr>stdin := l\<rparr>) = store_inv s"
  "store_inv (s\<lparr>dirs := ds\<rparr>) = store_inv s"
  by (simp_all add: store_inv_def print_msg_def print_msgs_def print_help_def)

lemma outcome_state_simps [simp]:
  "outcome_state (Continue s) = s" "outcome_state (Quit s) = s" "outcome_state (Crash e s) = s"
  by (simp_all add: outcome_state_def)



lemma run_reach:
  "\<exists>t. reach cs s t \<and> (case run cs s of
       Inr s' \<Rightarrow> step cs t = Quit s'
     | Inl (e, s') \<Rightarrow> step cs t = Crash e s')"
proof (induction cs s rule: run.induct)
  case (1 cs s)
  show ?case
  proof (cases "step cs s")
    case (Continue s1)
    with "1.IH" obtain t where "reach cs s1 t" and last: "(case run cs s1 of
       Inr s' \<Rightarrow> step cs t = Quit s' | Inl (e, s') \<Rightarrow> step cs t = Crash e s')"
      by blast
    then have "reach cs s t" using Continue by (blast intro: reach_step)
    with last Continue show ?thesis by (auto simp: run.simps [of cs s])
  qed (auto simp: run.simps [of cs s] intro: reach.intros)
qed











section \<open>Properties\<close>



text \<open>
  C10. The command loop terminates within one iteration per line of input: with
  more iterations allowed than there are lines on stdin, the bounded loop returns the
  result of the loop.
\<close>

theorem run_fuel_enough: "length (stdin s) < n \<Longrightarrow> run_fuel n cs s = Some (run cs s)"
proof (induction n arbitrary: s)
  case 0
  then show ?case by simp
next
  case (Suc n)
  show ?case
  proof (cases "step cs s")
    case (Continue s')
    with Suc.prems have "length (stdin s') < n" using step_consumes [OF Continue] by simp
    with Continue Suc.IH show ?thesis by (simp add: run.simps [of cs s])
  qed (simp_all add: run.simps [of cs s])
qed



text \<open>
  C19. Upload with no container crashes the program: when no container of the
  listed pool can be opened, \<open>get_daos_container\<close> returns \<open>None\<close> and the
  unpacking at line 187, outside every \<open>try\<close>, raises a \<open>TypeError\<close> that ends
  the program, with the containers and the metadata unchanged.
\<close>

theorem upload_no_container_crash:
  assumes inp: "stdin s = ''u'' # rest"
    and none: "\<forall>c \<in> set (snd (listing s)). conts s (fst (listing s), c) = None"
  shows "\<exists>s'. step cs s = Crash UnpackNone s' \<and> conts s' = conts s \<and> metadata_json s' = metadata_json s"
proof -
  obtain ms where tc: "try_containers (conts s) (fst (listing s)) (snd (listing s)) = (ms, None)"
    using try_containers_None [OF none] by (cases "try_containers (conts s) (fst (listing s)) (snd (listing s))") auto
  then show ?thesis
    using inp by (simp add: step_def dispatch_def Let_def py_input_def print_help_def print_msg_def
        upload_file_def get_daos_container_def print_msgs_def)
qed

section \<open>Witnesses\<close>



theorem run_fuel_enough_witness:
  "length (stdin session_state) < 7 \<and> run_fuel 7 2 session_state = Some (run 2 session_state)"
  using run_fuel_enough [of session_state 7 2] by (simp add: session_state_def demo_state_def)


theorem upload_no_container_crash_witness:
  "\<exists>s'. step 2 (demo_state\<lparr>stdin := [''u''], listing := (''pool0'', [''cont0''])\<rparr>) = Crash UnpackNone s'
     \<and> conts s' = conts demo_state \<and> metadata_json s' = metadata_json demo_state"
  using upload_no_container_crash [of "demo_state\<lparr>stdin := [''u''], listing := (''pool0'', [''cont0''])\<rparr>" "[]" 2]
  by (simp add: demo_state_def)

end
