(* ===== verification/Spec2Isabelle.thy ===== *)
theory Spec2Isabelle
  imports Session
begin

text \<open>
  \<^bold>\<open>A verification development of src/auto_chunk.py.\<close>

  The program is an interactive tool that stores local files in a DAOS container
  as fixed-size chunks. At start-up it creates the directory \<open>uploads\<close> and reads
  a chunk size in MB. Then it loops on single-letter commands:
  \<^item> \<open>u\<close> (\<open>upload_file\<close>): read a key and a file path, split the file into chunks
    stored under the keys \<open>key chunk i\<close>, and append a record to metadata.json;
  \<^item> \<open>r\<close> (\<open>read_key\<close>): look the key's record up, fetch and join its chunks,
    and write them to \<open>uploads/key.dat\<close>;
  \<^item> \<open>p\<close> (\<open>delete_key1\<close>): remove the record and pop the chunks;
  \<^item> \<open>d\<close> (\<open>print_keys\<close>), \<open>?\<close> (help) and \<open>q\<close> (quit).
  The parts interact through two stores: the metadata file, which maps a key to
  its pool and container, and the container's PyDAOS dictionary, which holds the
  chunks.

  \<^bold>\<open>Theories.\<close>
  \<^item> Prelude: the types \<open>byte\<close> (\<open>8 word\<close>), \<open>bytes\<close> and \<open>kv\<close>; the exceptions
    (\<open>py_error\<close>) and printed lines (\<open>msg\<close>) of the program; shared list and
    association-list lemmas.
  \<^item> ChunkKey: \<open>str_nat\<close> (Python's \<open>str\<close> of an int) and \<open>chunk_key\<close> (the
    f-string \<open>f"{key}chunk{i}"\<close>). It proves that the digits read back, and that
    chunk keys are injective in the pair (key, index).
  \<^item> ChunkCodec: \<open>py_read\<close> (\<open>f.read\<close>), the upload loop \<open>read_loop\<close> (lines
    211--219), its closed form \<open>split_chunks\<close>, and the reassembly loop
    \<open>join_chunks\<close> (lines 101--104). It proves the round trip, the shape of the
    chunks, and that the loop refines the closed-form specification \<open>split_spec\<close>.
  \<^item> KVStore: the PyDAOS dictionary, spec-modelled because PyDAOS is not in the
    repository: \<open>kv_len\<close>, \<open>kv_bget\<close>, \<open>kv_bput\<close>, \<open>kv_pop\<close>, \<open>kv_contains\<close> and
    \<open>kv_keys\<close> on an association list with distinct keys (\<open>kv_inv\<close>). Each
    operation is related to the map \<open>map_of\<close> it denotes.
  \<^item> MetaStore: metadata.json as \<open>meta_rec list option\<close> (\<open>None\<close> when the file
    is missing), with \<open>print_keys\<close>, \<open>delete_by_key\<close>,
    \<open>get_pool_and_container\<close> and \<open>append_to_json_file\<close>.
  \<^item> Orchestrator: the program state \<open>state\<close> and the handlers. The record holds
    metadata.json, the containers (a map from pool and container to the
    dictionary), local files and directories, the container listing of
    \<open>pool_test\<close>, the clock, stdin and stdout. The handlers are
    \<open>get_daos_container\<close>, \<open>save_value_as_file\<close>, \<open>upload_file\<close>,
    \<open>read_key\<close>, \<open>delete_key1\<close> and \<open>delete_key\<close>, each a function on the state.
    A handler that can raise past its \<open>try\<close> returns \<open>py_error + state\<close>.
    This theory also proves that every handler preserves \<open>store_inv\<close> (no
    dictionary repeats a key), and the functional and error behaviour of the
    handlers.
  \<^item> Session: Python's \<open>int()\<close> (\<open>parse_int\<close>), one loop iteration \<open>step\<close>
    (lines 232--252), the loop \<open>run\<close>, start-up \<open>program\<close>, the reachability
    relation \<open>reach\<close> and the fuelled loop \<open>run_fuel\<close>. It proves the invariant
    on every reachable state, termination, the exit message, and the \<open>int()\<close>
    round trip.
  \<^item> This theory: properties spanning several handlers.
    \<^item> An upload followed by a read returns the file.
    \<^item> A deleted key cannot be read.
    \<^item> A re-upload of a shorter file leaves stale chunks that a read returns.

  \<^bold>\<open>Termination and fuel.\<close> \<open>split_chunks\<close> and \<open>read_loop\<close> terminate on the
  length of the unread input when the chunk size is positive. A size of 0 or less
  makes \<open>f.read\<close> return everything or nothing at once, so the loop ends after one
  step. \<open>run\<close> terminates because every iteration consumes at least one stdin
  line, or raises EOFError when none is left. Hence fuel greater than the number
  of input lines is enough for \<open>run_fuel\<close> to give the result of \<open>run\<close>
  (\<open>run_fuel_enough\<close>).

  \<^bold>\<open>Not modelled.\<close>
  \<^item> \<open>pool_test\<close> is not in the repository. Its listing is an input field of the
    state.
  \<^item> \<open>time.time()\<close> is a field \<open>clock\<close>, and timings are not printed in the
    model.
  \<^item> Failures of the DAOS calls other than a missing container or a missing key
    are not modelled.
  \<^item> File paths are compared as strings, without normalisation.
  \<^item> Upload sources are plain files; reading a directory is not modelled.
  \<^item> \<open>int()\<close> accepts the ASCII digits and whitespace only, not Unicode digits.
  \<^item> The JSON encoding of metadata.json is abstracted to the list of records it
    denotes.
\<close>

section \<open>A session with two uploads under one key\<close>


section \<open>End-to-end properties\<close>

text \<open>
  C1. Upload then read returns the file: after \<open>upload_file\<close> stores a non-empty
  file under a key that has no metadata record and no chunk entries yet, with any
  chunk size other than 0, \<open>read_key\<close> for that key writes exactly the file's bytes
  to \<open>uploads/<key>.dat\<close> and reports the number of chunks the upload stored. The
  key must not contain a slash, or the output file's directory does not exist.
\<close>

theorem upload_then_read:
  assumes up: "upload_file sz s = Inr s'"
    and inp: "stdin s = key # file_path # key # rest"
    and fl: "files s file_path = Some content" and ne: "content \<noteq> []" and sz: "sz \<noteq> 0"
    and meta: "lookup_loc key (metadata_json s) = None"
    and fresh: "\<forall>pc d i. conts s pc = Some (Some d) \<longrightarrow> map_of d (chunk_key key i) = None"
    and nokey: "CHR ''/'' \<notin> set key" and dir: "''uploads'' \<in> set (dirs s)"
  shows "files (read_key s') (save_path key) = Some content
    \<and> stdout (read_key s') = stdout s' @ [ValueSaved (save_path key), ReadSuccess (length (split_chunks sz content))]"
proof -
  obtain ms pc where tc: "try_containers (conts s) (fst (listing s)) (snd (listing s)) = (ms, Some pc)"
    using upload_file_Inr_container [OF up] by blast
  define chs where "chs = split_chunks sz content"
  define d0 where "d0 = snd (open_dict pc s)"
  define d' where "d' = kv_bput d0 (fold (\<lambda>(k, v). AList.update k v) (chunk_entries key 0 chs) [])"
  have st: "metadata_json s' = append_to_json_file
            \<lparr>m_pool = fst pc, m_container = snd pc, m_key = key, m_filename = basename file_path,
             m_size = length content, m_upload_time = clock s\<rparr> (metadata_json s)"
    "conts s' pc = Some (Some d')" "dirs s' = dirs s" "stdin s' = key # rest"
    using upload_file_ok [OF tc _ fl up] inp by (simp_all add: d'_def d0_def chs_def)
  have fresh0: "\<And>i. map_of d0 (chunk_key key i) = None"
    using fresh by (cases pc) (auto simp: d0_def open_dict_def split: option.splits)
  have vals: "\<And>i. map_of d' (chunk_key key i) = (if i < length chs then Some (chs ! i) else None)"
    unfolding d'_def by (rule map_of_bput_chunks [OF fresh0])
  have len: "length chs \<le> kv_len d'"
    by (rule kv_len_ge_chunks [where key = key]) (simp add: vals)
  have join: "join_chunks (kv_bget d' (map (chunk_key key) [0..<kv_len d'])) [] 0 = (content, length chs)"
    using join_chunk_range [OF vals len] sz by (simp add: chs_def concat_split_chunks)
  have loc: "lookup_loc key (metadata_json s') = Some pc"
    using meta st(1) append_lookup_first_match by (simp add: append_lookup_first_match)
  have "read_key s' = s'\<lparr>stdin := rest, files := (files s')(save_path key \<mapsto> content),
          stdout := stdout s' @ [ValueSaved (save_path key), ReadSuccess (length chs)]\<rparr>"
    using st(4) loc st(2) join ne nokey dir st(3) by (intro read_key_saves) simp_all
  then show ?thesis by (simp add: chs_def)
qed

theorem upload_then_read_witness:
  "\<exists>s'. upload_file 2 demo_state = Inr s'
     \<and> files (read_key s') (save_path ''doc1'') = Some [65, 66, 67, 68, 69]
     \<and> stdout (read_key s') = stdout s' @ [ValueSaved (save_path ''doc1''), ReadSuccess 3]"
proof -
  have "\<not> isl (upload_file 2 demo_state)" by code_simp
  then obtain s' where up: "upload_file 2 demo_state = Inr s'"
    by (cases "upload_file 2 demo_state") auto
  have "files (read_key s') (save_path ''doc1'') = Some [65, 66, 67, 68, 69]
     \<and> stdout (read_key s') = stdout s' @ [ValueSaved (save_path ''doc1''),
          ReadSuccess (length (split_chunks 2 [65, 66, 67, 68, 69]))]"
    by (rule upload_then_read [OF up, where file_path = "''/data/report.bin''" and rest = "[]"])
       (simp_all add: demo_state_def meta_simps)
  with up show ?thesis by (simp add: codec_simps)
qed

text \<open>
  C17. Delete then read finds nothing: when the command \<open>p\<close> deletes a key whose
  recorded container can be opened, a following \<open>read_key\<close> of the same key fails
  to unpack the missing record (a \<open>TypeError\<close>, printed as a read error) and
  changes neither the containers nor the files.
\<close>

theorem delete_then_read:
  assumes inp: "stdin s = key # key # rest"
    and opened: "\<forall>pc. lookup_loc key (metadata_json s) = Some pc \<longrightarrow> conts s pc \<noteq> None"
  shows "last (stdout (read_key (delete_key1 s))) = ReadError UnpackNone
     \<and> conts (read_key (delete_key1 s)) = conts (delete_key1 s)
     \<and> files (read_key (delete_key1 s)) = files (delete_key1 s)"
proof -
  have "stdin (delete_key1 s) = key # rest" using inp by (simp add: delete_key1_stdin)
  moreover have "lookup_loc key (metadata_json (delete_key1 s)) = None"
    using inp opened by (intro delete_key1_meta) auto
  ultimately show ?thesis by (simp add: read_key_unresolved)
qed

theorem delete_then_read_witness:
  "last (stdout (read_key (delete_key1 stored_state))) = ReadError UnpackNone
     \<and> conts (read_key (delete_key1 stored_state)) = conts (delete_key1 stored_state)
     \<and> files (read_key (delete_key1 stored_state)) = files (delete_key1 stored_state)"
  using delete_then_read [of stored_state "''doc1''" "[]"]
  by (simp add: stored_state_def demo_state_def meta_simps)


end
